theory Spec2Isabelle
  imports Complex_Main "HOL-Library.Log_Nat"
begin

section \<open>Python values shared by the three scripts\<close>

text \<open>
  Exceptions.  The monitor loop of \<^verbatim>\<open>liquity_liquidation_bot.py\<close> has a single handler,
  \<^verbatim>\<open>except Exception as e\<close>: it catches every instance of \<^verbatim>\<open>Exception\<close> and nothing else.
  \<open>ZeroDivisionError\<close>, \<open>IndexError\<close> and \<open>KeyError\<close> are the exceptions the scripts'
  own expressions can raise, \<open>Failure m\<close> is any other instance of \<^verbatim>\<open>Exception\<close> raised by
  a library call (a network failure, a malformed response, a rejected transaction, a
  confirmation wait that ran out of time), and \<open>Interrupt m\<close> is an exception that derives
  from \<^verbatim>\<open>BaseException\<close> only (\<^verbatim>\<open>KeyboardInterrupt\<close>, \<^verbatim>\<open>SystemExit\<close>).
\<close>

datatype py_exception =
  ZeroDivisionError | IndexError | KeyError | Failure string | Interrupt string

fun is_Exception :: "py_exception \<Rightarrow> bool" where
  "is_Exception (Interrupt m) = False"
| "is_Exception e = True"

section \<open>Python floats\<close>

text \<open>
  A Python \<^verbatim>\<open>float\<close> is an IEEE 754 binary64 number, and every arithmetic operation on
  floats returns the exact result rounded to the nearest binary64 number, ties to the even
  significand.  A finite float is modelled as the real number it denotes, and
  \<open>binary64\<close> is that rounding: \<open>exponent x\<close> is \<open>\<lfloor>log\<^sub>2 \<bar>x\<bar>\<rfloor>\<close>, so that the 53-bit
  significand of \<open>x\<close> counts units of \<open>2 ^ (exponent x - 52)\<close>.  The exponent range is
  left unbounded: overflow to \<^verbatim>\<open>inf\<close>, subnormal numbers and \<^verbatim>\<open>nan\<close> are not modelled.
\<close>

definition round_half_even :: "real \<Rightarrow> int" where
  "round_half_even x =
     (let n = \<lfloor>x\<rfloor>; r = x - of_int n
      in if r < 1 / 2 then n else if 1 / 2 < r then n + 1 else if even n then n else n + 1)"

definition exponent :: "real \<Rightarrow> int" where
  "exponent x =
     (if 1 \<le> \<bar>x\<bar> then int (floorlog 2 (nat \<lfloor>\<bar>x\<bar>\<rfloor>)) - 1
      else - int (floorlog 2 (nat (\<lceil>1 / \<bar>x\<bar>\<rceil> - 1))))"

definition binary64 :: "real \<Rightarrow> real" where
  "binary64 x =
     (if x = 0 then 0
      else let e = exponent x - 52 in of_int (round_half_even (x / 2 powi e)) * 2 powi e)"

text \<open>\<^verbatim>\<open>float(n)\<close> of an integer, \<^verbatim>\<open>x * y\<close> and \<^verbatim>\<open>x / y\<close> on floats.  An integer operand of
  \<^verbatim>\<open>/\<close> or \<^verbatim>\<open>*\<close> is converted with \<open>float_of_int\<close> first.\<close>

definition float_of_int :: "nat \<Rightarrow> real" where
  "float_of_int n = binary64 (real n)"

definition float_mul :: "real \<Rightarrow> real \<Rightarrow> real" where
  "float_mul x y = binary64 (x * y)"

definition float_div :: "real \<Rightarrow> real \<Rightarrow> py_exception + real" where
  "float_div x y = (if y = 0 then Inl ZeroDivisionError else Inr (binary64 (x / y)))"

text \<open>\<^verbatim>\<open>xs[i]\<close> for \<open>i \<ge> 0\<close>.\<close>

definition index :: "'a list \<Rightarrow> nat \<Rightarrow> py_exception + 'a" where
  "index xs i = (if i < length xs then Inr (xs ! i) else Inl IndexError)"

section \<open>liquity\_liquidation\_bot.py\<close>

text \<open>
  The script talks to an Ethereum node through web3 and to a price API through requests.
  A \<open>world\<close> holds what these answer during one iteration of the monitor loop: each
  field is the outcome of one call, \<open>Inl\<close> the exception it raises.  \<open>Troves\<close> returns the
  tuple of the contract's \<^verbatim>\<open>Troves\<close> mapping (debt at index 0, collateral at index 1, status
  at index 3, all unsigned integers, amounts in units of \<open>10\<^sup>-\<^sup>1\<^sup>8\<close>).  \<open>price_api\<close> is the parsed
  JSON body of the price request, a dictionary of dictionaries whose number is taken as
  the float of the same value.  The three steps that
  prepare a transaction without reading the chain (\<open>liquidateTroves\<close>,
  \<open>build_transaction\<close>, \<open>sign_transaction\<close>) return no value the model needs, only the
  exception they may raise.
\<close>

type_synonym address = string
type_synonym tx_hash = nat
type_synonym receipt = nat

record world =
  getFirstTroveInSortedList :: "py_exception + address"
  Troves :: "address \<Rightarrow> py_exception + nat list"
  price_api :: "py_exception + (string \<rightharpoonup> (string \<rightharpoonup> real))"
  get_transaction_count :: "py_exception + nat"
  liquidateTroves :: "address list \<Rightarrow> py_exception option"
  gas_price :: "py_exception + nat"
  build_transaction :: "py_exception option"
  sign_transaction :: "py_exception option"
  send_raw_transaction :: "py_exception + tx_hash"
  wait_for_transaction_receipt :: "tx_hash \<Rightarrow> py_exception + receipt"

record trove_details =
  address :: address
  collateral :: real
  debt :: real
  collateral_ratio :: real

text \<open>The transaction built by \<^verbatim>\<open>liquidate_trove\<close>: the argument of \<open>liquidateTroves\<close> and the
  four fields of the dictionary given to \<open>build_transaction\<close>.\<close>

record txn =
  troves :: "address list"
  chainId :: nat
  gas :: nat
  gasPrice :: nat
  nonce :: nat

text \<open>
  What the script does to the outside is recorded as a trace of events, oldest first: the
  messages it logs, every call of \<open>send_raw_transaction\<close> and of
  \<open>wait_for_transaction_receipt\<close> with what the call returned or raised, and every
  \<^verbatim>\<open>time.sleep\<close> with its number of seconds.
\<close>

datatype log_message =
    Starting
  | LowestCRTrove trove_details
  | Attempting address
  | TransactionSent tx_hash
  | LiquidationComplete tx_hash
  | AboveThreshold
  | NoValidTroves
  | ErrorOccurred py_exception

datatype event =
    Info log_message
  | Error log_message
  | SendRaw txn "py_exception + tx_hash"
  | WaitReceipt tx_hash "py_exception + receipt"
  | Sleep nat

definition get_eth_price :: "world \<Rightarrow> py_exception + real" where
  "get_eth_price w =
     (case price_api w of
        Inl e \<Rightarrow> Inl e
      | Inr data \<Rightarrow>
          (case data ''ethereum'' of
             None \<Rightarrow> Inl KeyError
           | Some d \<Rightarrow> (case d ''usd'' of None \<Rightarrow> Inl KeyError | Some p \<Rightarrow> Inr p)))"

definition get_trove_details :: "world \<Rightarrow> address \<Rightarrow> py_exception + trove_details option" where
  "get_trove_details w a =
     (case Troves w a of
        Inl e \<Rightarrow> Inl e
      | Inr trove \<Rightarrow>
     (case index trove 1 of
        Inl e \<Rightarrow> Inl e
      | Inr c \<Rightarrow>
     (case float_div (float_of_int c) (10 ^ 18) of
        Inl e \<Rightarrow> Inl e
      | Inr coll \<Rightarrow>
     (case index trove 0 of
        Inl e \<Rightarrow> Inl e
      | Inr d \<Rightarrow>
     (case float_div (float_of_int d) (10 ^ 18) of
        Inl e \<Rightarrow> Inl e
      | Inr debt' \<Rightarrow>
          if 0 < debt' then
            (case get_eth_price w of
               Inl e \<Rightarrow> Inl e
             | Inr price' \<Rightarrow>
                 (case float_div (float_mul coll price') debt' of
                    Inl e \<Rightarrow> Inl e
                  | Inr ratio \<Rightarrow>
                      Inr (Some \<lparr>address = a, collateral = coll, debt = debt',
                                 collateral_ratio = ratio\<rparr>)))
          else Inr None)))))"

definition liquidate_trove ::
  "world \<Rightarrow> address \<Rightarrow> event list \<Rightarrow> (py_exception + tx_hash) \<times> event list" where
  "liquidate_trove w a tr =
     (case get_transaction_count w of
        Inl e \<Rightarrow> (Inl e, tr)
      | Inr n \<Rightarrow>
     (case liquidateTroves w [a] of
        Some e \<Rightarrow> (Inl e, tr)
      | None \<Rightarrow>
     (case gas_price w of
        Inl e \<Rightarrow> (Inl e, tr)
      | Inr g \<Rightarrow>
     (case build_transaction w of
        Some e \<Rightarrow> (Inl e, tr)
      | None \<Rightarrow>
     (case sign_transaction w of
        Some e \<Rightarrow> (Inl e, tr)
      | None \<Rightarrow>
          let signed_txn = \<lparr>troves = [a], chainId = 1, gas = 2000000, gasPrice = g, nonce = n\<rparr>;
              sent = send_raw_transaction w;
              tr1 = tr @ [SendRaw signed_txn sent]
          in (case sent of
                Inl e \<Rightarrow> (Inl e, tr1)
              | Inr h \<Rightarrow> (Inr h, tr1 @ [Info (TransactionSent h)])))))))"

text \<open>
  The monitor loop.  \<open>Running\<close> is the loop at the end of an iteration, about to start the
  next one; \<open>Raised e\<close> is \<^verbatim>\<open>main\<close> left by the exception \<open>e\<close>, which ends the process.
  \<open>handler\<close> is the \<^verbatim>\<open>except Exception\<close> clause, \<open>main_iteration\<close> the body of
  \<^verbatim>\<open>while True\<close>, and \<open>main_loop\<close> runs one iteration for each world of a list: the loop
  has no exit, so a run of \<^verbatim>\<open>main\<close> is described by its finite prefixes.  Exceptions
  come from the calls a world answers; an interrupt during \<^verbatim>\<open>time.sleep\<close> is not modelled.
\<close>

datatype status = Running | Raised py_exception

definition handler :: "py_exception \<Rightarrow> event list \<Rightarrow> status \<times> event list" where
  "handler e tr =
     (if is_Exception e then (Running, tr @ [Error (ErrorOccurred e), Sleep 5])
      else (Raised e, tr))"

definition main_iteration :: "world \<Rightarrow> event list \<Rightarrow> status \<times> event list" where
  "main_iteration w tr =
     (case getFirstTroveInSortedList w of
        Inl e \<Rightarrow> handler e tr
      | Inr first_trove \<Rightarrow>
     (case get_trove_details w first_trove of
        Inl e \<Rightarrow> handler e tr
      | Inr None \<Rightarrow> (Running, tr @ [Info NoValidTroves, Sleep 15])
      | Inr (Some lowest_cr_trove) \<Rightarrow>
          let tr1 = tr @ [Info (LowestCRTrove lowest_cr_trove)]
          in if collateral_ratio lowest_cr_trove < binary64 (11 / 10) then
               (case liquidate_trove w (address lowest_cr_trove)
                       (tr1 @ [Info (Attempting (address lowest_cr_trove))]) of
                  (Inl e, tr2) \<Rightarrow> handler e tr2
                | (Inr h, tr2) \<Rightarrow>
                    let waited = wait_for_transaction_receipt w h;
                        tr3 = tr2 @ [WaitReceipt h waited]
                    in (case waited of
                          Inl e \<Rightarrow> handler e tr3
                        | Inr r \<Rightarrow> (Running, tr3 @ [Info (LiquidationComplete h), Sleep 15])))
             else (Running, tr1 @ [Info AboveThreshold, Sleep 15])))"

fun main_loop :: "world list \<Rightarrow> event list \<Rightarrow> status \<times> event list" where
  "main_loop [] tr = (Running, tr)"
| "main_loop (w # ws) tr =
     (case main_iteration w tr of
        (Running, tr') \<Rightarrow> main_loop ws tr'
      | (Raised e, tr') \<Rightarrow> (Raised e, tr'))"

definition main :: "world list \<Rightarrow> status \<times> event list" where
  "main ws = main_loop ws [Info Starting]"

text \<open>
  Reading a trace.  \<open>submissions tr\<close> are the liquidation transactions the node accepted
  (the call of \<open>send_raw_transaction\<close> returned a hash), each position id with its hash;
  \<open>confirmed tr\<close> are the hashes whose receipt the script has seen; a submission is
  pending while its hash is not confirmed, and \<open>pending tr a\<close> are the hashes of the
  pending submissions for the position id \<open>a\<close>.  \<open>send_calls tr\<close> are the transactions
  given to \<open>send_raw_transaction\<close>, accepted or not.
\<close>

fun submissions :: "event list \<Rightarrow> (address \<times> tx_hash) list" where
  "submissions [] = []"
| "submissions (SendRaw t (Inr h) # tr) = map (\<lambda>a. (a, h)) (troves t) @ submissions tr"
| "submissions (ev # tr) = submissions tr"

fun confirmed :: "event list \<Rightarrow> tx_hash list" where
  "confirmed [] = []"
| "confirmed (WaitReceipt h (Inr r) # tr) = h # confirmed tr"
| "confirmed (ev # tr) = confirmed tr"

fun send_calls :: "event list \<Rightarrow> txn list" where
  "send_calls [] = []"
| "send_calls (SendRaw t r # tr) = t # send_calls tr"
| "send_calls (ev # tr) = send_calls tr"

definition pending :: "event list \<Rightarrow> address \<Rightarrow> tx_hash list" where
  "pending tr a =
     filter (\<lambda>h. h \<notin> set (confirmed tr)) (map snd (filter (\<lambda>s. fst s = a) (submissions tr)))"

text \<open>A trace is settled when every submission in it is confirmed.\<close>

definition settled :: "event list \<Rightarrow> bool" where
  "settled tr \<longleftrightarrow> snd ` set (submissions tr) \<subseteq> set (confirmed tr)"

section \<open>liquity\_position\_info.py\<close>

text \<open>\<^verbatim>\<open>get_trove_info\<close> returns a dictionary with the key \<^verbatim>\<open>status\<close> alone for a trove that is
  not active, and with the collateral, the debt and the ratio for an active one; the ratio
  of an active trove without debt is \<^verbatim>\<open>float('inf')\<close>.\<close>

datatype py_float = Finite real | Infinity

datatype trove_info = Active real real py_float | NotActive

definition get_trove_info :: "world \<Rightarrow> address \<Rightarrow> py_exception + trove_info" where
  "get_trove_info w a =
     (case Troves w a of
        Inl e \<Rightarrow> Inl e
      | Inr trove \<Rightarrow>
     (case index trove 1 of
        Inl e \<Rightarrow> Inl e
      | Inr c \<Rightarrow>
     (case float_div (float_of_int c) (10 ^ 18) of
        Inl e \<Rightarrow> Inl e
      | Inr coll \<Rightarrow>
     (case index trove 0 of
        Inl e \<Rightarrow> Inl e
      | Inr d \<Rightarrow>
     (case float_div (float_of_int d) (10 ^ 18) of
        Inl e \<Rightarrow> Inl e
      | Inr debt' \<Rightarrow>
     (case index trove 3 of
        Inl e \<Rightarrow> Inl e
      | Inr status' \<Rightarrow>
          if status' = 1 then
            (case get_eth_price w of
               Inl e \<Rightarrow> Inl e
             | Inr price' \<Rightarrow>
                 if 0 < debt' then
                   (case float_div (float_mul coll price') debt' of
                      Inl e \<Rightarrow> Inl e
                    | Inr ratio \<Rightarrow> Inr (Active coll debt' (Finite ratio)))
                 else Inr (Active coll debt' Infinity))
          else Inr NotActive))))))"

section \<open>uniswap\_option\_risks.py\<close>












section \<open>Scenarios\<close>

text \<open>
  A world in which every call succeeds, used to run the definitions on concrete inputs:
  the trove \<open>trove\<close> heads the sorted list at the address \<^verbatim>\<open>0xB0b\<close>, the price API answers
  \<open>usd\<close>, the node reports gas price \<open>g\<close>, accepts the transaction under the hash \<open>h\<close>,
  and the wait for its receipt ends as \<open>waited\<close>.  \<open>trove_A\<close> has 2 ETH of collateral and
  \<open>trove_B\<close> 1.5 ETH, each against a debt of 3000.
\<close>

definition scenario ::
  "nat list \<Rightarrow> real \<Rightarrow> nat \<Rightarrow> tx_hash \<Rightarrow> py_exception + receipt \<Rightarrow> world" where
  "scenario trove usd g h waited =
     \<lparr>getFirstTroveInSortedList = Inr ''0xB0b'',
      Troves = (\<lambda>a. Inr trove),
      price_api = Inr [''ethereum'' \<mapsto> [''usd'' \<mapsto> usd]],
      get_transaction_count = Inr 7,
      liquidateTroves = (\<lambda>as. None),
      gas_price = Inr g,
      build_transaction = None,
      sign_transaction = None,
      send_raw_transaction = Inr h,
      wait_for_transaction_receipt = (\<lambda>h'. waited)\<rparr>"

definition trove_A :: "nat list" where
  "trove_A = [3000 * 10 ^ 18, 2 * 10 ^ 18, 0, 1, 0]"

definition trove_B :: "nat list" where
  "trove_B = [3000 * 10 ^ 18, 15 * 10 ^ 17, 0, 1, 0]"

section \<open>Properties of the float rounding\<close>

text \<open>The equations that evaluate the float operations on numerals.\<close>

lemmas float_eval =
  binary64_def exponent_def round_half_even_def Let_def compute_floorlog
  float_of_int_def float_mul_def float_div_def power_int_minus

lemma floorlog_pos: "0 < n \<Longrightarrow> 0 < floorlog 2 n"
  by (simp add: floorlog_def)

lemma exponent_bounds:
  assumes "x \<noteq> 0"
  shows "2 powi exponent x \<le> \<bar>x\<bar> \<and> \<bar>x\<bar> < 2 powi (exponent x + 1)"
proof (cases "1 \<le> \<bar>x\<bar>")
  case True
  define n where "n = nat \<lfloor>\<bar>x\<bar>\<rfloor>"
  define k where "k = floorlog 2 n"
  have n1: "0 < n" using True by (simp add: n_def)
  have k1: "0 < k" using n1 by (simp add: k_def floorlog_pos)
  have b: "2 ^ (k - 1) \<le> n \<and> n < 2 ^ k"
    using floorlog_bounds [of n 2] n1 by (simp add: k_def)
  have nx: "real n \<le> \<bar>x\<bar> \<and> \<bar>x\<bar> < real n + 1"
    using True by (simp add: n_def; linarith)
  have e: "exponent x = int k - 1" using True by (simp add: exponent_def n_def k_def)
  have p1: "(2::real) powi (int k - 1) = 2 ^ (k - 1)"
  proof -
    obtain j where kj: "k = Suc j" using k1 by (cases k) auto
    have "int k - 1 = int j" using kj by simp
    then have "(2::real) powi (int k - 1) = 2 powi (int j)" by simp
    then show ?thesis using kj by simp
  qed
  have p2: "(2::real) powi (int k - 1 + 1) = 2 ^ k"
    by (simp add: power_int_def)
  have lo: "(2::real) ^ (k - 1) \<le> real n"
    using b by (metis of_nat_le_iff of_nat_numeral of_nat_power)
  have hi: "real n + 1 \<le> 2 ^ k"
  proof -
    have "n + 1 \<le> 2 ^ k" using b by simp
    then have "real (n + 1) \<le> real (2 ^ k)" by (rule iffD2 [OF of_nat_le_iff])
    then show ?thesis by simp
  qed
  show ?thesis unfolding e p1 p2 using lo hi nx by linarith
next
  case False
  define y where "y = 1 / \<bar>x\<bar>"
  define m where "m = nat (\<lceil>y\<rceil> - 1)"
  define k where "k = floorlog 2 m"
  have ax: "0 < \<bar>x\<bar>" "\<bar>x\<bar> < 1" using assms False by simp_all
  have y1: "1 < y" using ax by (simp add: y_def)
  have c2: "2 \<le> \<lceil>y\<rceil>" using y1 by linarith
  have m1: "0 < m" using c2 by (simp add: m_def)
  have my: "real m < y \<and> y \<le> real m + 1"
    using c2 by (simp add: m_def) linarith
  have k1: "0 < k" using m1 by (simp add: k_def floorlog_pos)
  have b: "2 ^ (k - 1) \<le> m \<and> m < 2 ^ k"
    using floorlog_bounds [of m 2] m1 by (simp add: k_def)
  have lo: "(2::real) ^ (k - 1) \<le> real m"
    using b by (metis of_nat_le_iff of_nat_numeral of_nat_power)
  have hi: "real m + 1 \<le> 2 ^ k"
  proof -
    have "m + 1 \<le> 2 ^ k" using b by simp
    then have "real (m + 1) \<le> real (2 ^ k)" by (rule iffD2 [OF of_nat_le_iff])
    then show ?thesis by simp
  qed
  have e: "exponent x = - int k" using False by (simp add: exponent_def m_def k_def y_def)
  have p1: "(2::real) powi (- int k) = 1 / 2 ^ k"
    by (simp add: power_int_def field_simps)
  have p2: "(2::real) powi (- int k + 1) = 1 / 2 ^ (k - 1)"
  proof -
    obtain j where kj: "k = Suc j" using k1 by (cases k) auto
    have "- int k + 1 = - int j" using kj by simp
    then have "(2::real) powi (- int k + 1) = 2 powi (- int j)" by simp
    also have "\<dots> = 1 / 2 ^ j" by (simp add: power_int_minus field_simps)
    finally show ?thesis using kj by simp
  qed
  have yk: "y \<le> 2 ^ k" and ky: "2 ^ (k - 1) < y" using lo hi my by linarith+
  have A: "1 / 2 ^ k \<le> \<bar>x\<bar>"
    using yk ax by (simp add: y_def field_simps)
  have B: "\<bar>x\<bar> < 1 / 2 ^ (k - 1)"
    using ky ax by (simp add: y_def field_simps)
  show ?thesis unfolding e p1 p2 using A B by simp
qed

lemma round_half_even_error: "\<bar>of_int (round_half_even x) - x\<bar> \<le> 1 / 2"
  unfolding round_half_even_def Let_def by (simp; linarith)

lemma binary64_error:
  "\<bar>binary64 x - x\<bar> \<le> \<bar>x\<bar> / 2 ^ 53"
proof (cases "x = 0")
  case True
  then show ?thesis by (simp add: binary64_def)
next
  case False
  define e where "e = exponent x - 52"
  define u :: real where "u = 2 powi e"
  have u0: "0 < u" by (simp add: u_def)
  have b: "binary64 x = of_int (round_half_even (x / u)) * u"
    using False by (simp add: binary64_def e_def u_def Let_def)
  have "binary64 x - x = (of_int (round_half_even (x / u)) - x / u) * u"
    using u0 by (simp add: b left_diff_distrib)
  then have "\<bar>binary64 x - x\<bar> = \<bar>of_int (round_half_even (x / u)) - x / u\<bar> * u"
    using u0 by (simp add: abs_mult)
  also have "\<dots> \<le> (1 / 2) * u"
    using round_half_even_error [of "x / u"] u0 by (simp add: mult_right_mono)
  finally have err: "\<bar>binary64 x - x\<bar> \<le> u / 2" by simp
  have "2 powi exponent x \<le> \<bar>x\<bar>" using exponent_bounds [OF False] by simp
  moreover have "(2::real) powi exponent x = u * 2 ^ 52"
    by (simp add: u_def e_def power_int_diff)
  ultimately have "u * 2 ^ 52 \<le> \<bar>x\<bar>" by simp
  then have "u / 2 \<le> \<bar>x\<bar> / 2 ^ 53" by simp
  with err show ?thesis by linarith
qed

lemma binary64_sign: "(0 < binary64 x \<longleftrightarrow> 0 < x) \<and> (binary64 x = 0 \<longleftrightarrow> x = 0)"
proof -
  have e: "\<bar>binary64 x - x\<bar> \<le> \<bar>x\<bar> / 2 ^ 53" by (rule binary64_error)
  have "\<bar>x\<bar> / 2 ^ 53 < \<bar>x\<bar> \<or> x = 0" by (simp add: field_simps)
  then show ?thesis using e by (auto simp: abs_if split: if_splits)
qed


section \<open>Properties of liquity\_liquidation\_bot.py and liquity\_position\_info.py\<close>

lemmas scenario_eval = scenario_def trove_A_def trove_B_def get_eth_price_def index_def

lemma amount_pos:
  "float_div (float_of_int n) (10 ^ 18) = Inr (binary64 (binary64 (real n) / 10 ^ 18))
   \<and> (0 < binary64 (binary64 (real n) / 10 ^ 18) \<longleftrightarrow> 0 < n)"
proof -
  have "0 < binary64 (real n) / 10 ^ 18 \<longleftrightarrow> 0 < binary64 (real n)"
    by (simp add: zero_less_divide_iff)
  then show ?thesis
    using binary64_sign [of "binary64 (real n) / 10 ^ 18"] binary64_sign [of "real n"]
    by (simp add: float_div_def float_of_int_def)
qed

lemma main_iteration_extends:
  "main_iteration w tr = (fst (main_iteration w []), tr @ snd (main_iteration w []))"
  by (simp add: main_iteration_def liquidate_trove_def handler_def Let_def
      split: sum.splits option.splits prod.splits)




text \<open>
  C2.  For a position with debt 0, whatever its collateral and whatever the price API
  answers or raises, \<^verbatim>\<open>get_trove_details\<close> returns \<^verbatim>\<open>None\<close>, without reading the price
  and without dividing by the debt, and the loop logs that no valid trove was found and
  sleeps: no liquidation is attempted and no \<open>ZeroDivisionError\<close> arises.
  \<^verbatim>\<open>get_trove_info\<close> does not divide either: for an active trove it reports the ratio
  \<^verbatim>\<open>inf\<close>, and otherwise only what the reads raised or that the trove is not active.
\<close>

theorem zero_debt_never_eligible:
  assumes "getFirstTroveInSortedList w = Inr a"
    and "Troves w a = Inr trove" and "2 \<le> length trove" and "trove ! 0 = 0"
  shows "get_trove_details w a = Inr None
       \<and> main_iteration w tr = (Running, tr @ [Info NoValidTroves, Sleep 15])
       \<and> get_trove_info w a =
           (case index trove 3 of
              Inl e \<Rightarrow> Inl e
            | Inr s \<Rightarrow>
                if s = 1 then
                  (case get_eth_price w of
                     Inl e \<Rightarrow> Inl e
                   | Inr p \<Rightarrow>
                       Inr (Active (binary64 (binary64 (real (trove ! 1)) / 10 ^ 18)) 0 Infinity))
                else Inr NotActive)"
proof -
  have ix: "index trove 1 = Inr (trove ! 1)" "index trove 0 = Inr 0"
    using assms(3,4) by (auto simp: index_def)
  have z: "float_div (float_of_int 0) (10 ^ 18) = Inr 0"
    by (simp add: float_div_def float_of_int_def binary64_def)
  have g: "get_trove_details w a = Inr None"
    using assms(2) ix z amount_pos [of "trove ! 1"]
    by (simp add: get_trove_details_def)
  have m: "main_iteration w tr = (Running, tr @ [Info NoValidTroves, Sleep 15])"
    using assms(1) g by (simp add: main_iteration_def)
  have i: "get_trove_info w a =
           (case index trove 3 of
              Inl e \<Rightarrow> Inl e
            | Inr s \<Rightarrow>
                if s = 1 then
                  (case get_eth_price w of
                     Inl e \<Rightarrow> Inl e
                   | Inr p \<Rightarrow>
                       Inr (Active (binary64 (binary64 (real (trove ! 1)) / 10 ^ 18)) 0 Infinity))
                else Inr NotActive)"
    using assms(2) ix z amount_pos [of "trove ! 1"]
    by (simp add: get_trove_info_def split: sum.splits)
  show ?thesis using g m i by simp
qed

theorem zero_debt_witness:
  "getFirstTroveInSortedList (scenario [0, 2 * 10 ^ 18, 0, 1, 0] 0 30 1001 (Inr 1)) = Inr ''0xB0b''
   \<and> Troves (scenario [0, 2 * 10 ^ 18, 0, 1, 0] 0 30 1001 (Inr 1)) ''0xB0b''
        = Inr [0, 2 * 10 ^ 18, 0, 1, 0]
   \<and> get_trove_details (scenario [0, 2 * 10 ^ 18, 0, 1, 0] 0 30 1001 (Inr 1)) ''0xB0b'' = Inr None
   \<and> main_iteration (scenario [0, 2 * 10 ^ 18, 0, 1, 0] 0 30 1001 (Inr 1)) []
        = (Running, [Info NoValidTroves, Sleep 15])
   \<and> get_trove_info (scenario [0, 2 * 10 ^ 18, 0, 1, 0] 0 30 1001 (Inr 1)) ''0xB0b''
        = Inr (Active 2 0 Infinity)"
proof -
  let ?w = "scenario [0, 2 * 10 ^ 18, 0, 1, 0] 0 30 1001 (Inr 1)"
  have h1: "getFirstTroveInSortedList ?w = Inr ''0xB0b''" by (simp add: scenario_def)
  have h2: "Troves ?w ''0xB0b'' = Inr [0, 2 * 10 ^ 18, 0, 1, 0]" by (simp add: scenario_def)
  have c: "binary64 (binary64 (real (2 * 10 ^ 18)) / 10 ^ 18) = 2"
    by (simp add: float_eval)
  have p: "get_eth_price ?w = Inr 0" by (simp add: scenario_eval)
  show ?thesis
    using zero_debt_never_eligible [OF h1 h2, of "[]"] h1 h2 c p
    by (simp add: index_def)
qed


lemma handler_Exception:
  "is_Exception e \<Longrightarrow> handler e tr = (Running, tr @ [Error (ErrorOccurred e), Sleep 5])"
  by (simp add: handler_def)

lemma main_iteration_Raised:
  "main_iteration w tr = (Raised e, tr') \<Longrightarrow> \<not> is_Exception e"
  by (auto simp: main_iteration_def handler_def Let_def
      split: sum.splits option.splits prod.splits if_splits)

text \<open>
  C5.  An error raised while the iteration reads the head of the sorted list, the trove
  or the price (a network failure, a malformed response: any instance of
  \<^verbatim>\<open>Exception\<close>) is caught by the loop: the iteration logs it as an error, sleeps 5
  seconds and ends, and the loop goes on with the next iteration.  Whatever is raised and
  wherever, an iteration ends the process only through an exception outside
  \<^verbatim>\<open>Exception\<close>, such as a keyboard interrupt.
\<close>

theorem read_errors_are_caught:
  assumes "is_Exception e"
    and "getFirstTroveInSortedList w = Inl e
         \<or> (\<exists>a. getFirstTroveInSortedList w = Inr a \<and> get_trove_details w a = Inl e)"
  shows "main_iteration w tr = (Running, tr @ [Error (ErrorOccurred e), Sleep 5])
       \<and> main_loop (w # ws) tr = main_loop ws (tr @ [Error (ErrorOccurred e), Sleep 5])
       \<and> (fst (main_iteration w' tr') = Running
            \<or> (\<exists>m. fst (main_iteration w' tr') = Raised (Interrupt m)))"
proof -
  have "main_iteration w tr = handler e tr"
    using assms(2) by (auto simp: main_iteration_def)
  then have it: "main_iteration w tr = (Running, tr @ [Error (ErrorOccurred e), Sleep 5])"
    using assms(1) by (simp add: handler_Exception)
  have any: "fst (main_iteration w' tr') = Running
            \<or> (\<exists>m. fst (main_iteration w' tr') = Raised (Interrupt m))"
  proof (cases "fst (main_iteration w' tr')")
    case Running
    then show ?thesis by simp
  next
    case (Raised x)
    then have "main_iteration w' tr' = (Raised x, snd (main_iteration w' tr'))"
      by (metis prod.collapse)
    then have "\<not> is_Exception x" by (rule main_iteration_Raised)
    then obtain m where "x = Interrupt m" by (cases x) simp_all
    then show ?thesis using Raised by simp
  qed
  show ?thesis using it any by simp
qed

theorem read_errors_witness:
  "is_Exception (Failure ''ConnectionError'')
   \<and> getFirstTroveInSortedList
        ((scenario trove_B 1900 30 1001 (Inr 1))\<lparr>price_api := Inl (Failure ''ConnectionError'')\<rparr>)
       = Inr ''0xB0b''
   \<and> get_trove_details
        ((scenario trove_B 1900 30 1001 (Inr 1))\<lparr>price_api := Inl (Failure ''ConnectionError'')\<rparr>)
        ''0xB0b'' = Inl (Failure ''ConnectionError'')
   \<and> main_loop
        [(scenario trove_B 1900 30 1001 (Inr 1))\<lparr>price_api := Inl (Failure ''ConnectionError'')\<rparr>,
         scenario trove_A 2000 30 1001 (Inr 1)]
        [Info Starting]
       = main_loop [scenario trove_A 2000 30 1001 (Inr 1)]
           [Info Starting, Error (ErrorOccurred (Failure ''ConnectionError'')), Sleep 5]"
proof -
  let ?w = "(scenario trove_B 1900 30 1001 (Inr 1))\<lparr>price_api := Inl (Failure ''ConnectionError'')\<rparr>"
  have h1: "is_Exception (Failure ''ConnectionError'')" by simp
  have f: "getFirstTroveInSortedList ?w = Inr ''0xB0b''" by (simp add: scenario_def)
  have g: "get_trove_details ?w ''0xB0b'' = Inl (Failure ''ConnectionError'')"
    by (simp add: get_trove_details_def scenario_eval float_eval)
  have h2: "getFirstTroveInSortedList ?w = Inl (Failure ''ConnectionError'')
         \<or> (\<exists>a. getFirstTroveInSortedList ?w = Inr a
                \<and> get_trove_details ?w a = Inl (Failure ''ConnectionError''))"
    using f g by blast
  show ?thesis
    using conjunct1 [OF conjunct2 [OF read_errors_are_caught [OF h1 h2,
        where ws = "[scenario trove_A 2000 30 1001 (Inr 1)]" and tr = "[Info Starting]"]]]
      h1 f g
    by simp
qed

lemma send_calls_append: "send_calls (xs @ ys) = send_calls xs @ send_calls ys"
  by (induction xs rule: send_calls.induct) simp_all

text \<open>
  C8.  A call of \<^verbatim>\<open>liquidate_trove\<close> that returns a hash has called
  \<open>send_raw_transaction\<close> exactly once, with the transaction that liquidates the one
  address it was given, under the nonce and the gas price it read.  A call that raises has
  called it once, when the send itself raised, or not at all.  There is no retry.
\<close>

theorem liquidate_trove_sends_once:
  "case liquidate_trove w a tr of
     (Inr h, tr') \<Rightarrow>
        send_raw_transaction w = Inr h
        \<and> (\<exists>g n. gas_price w = Inr g \<and> get_transaction_count w = Inr n
                 \<and> send_calls tr' = send_calls tr @
                     [\<lparr>troves = [a], chainId = 1, gas = 2000000, gasPrice = g, nonce = n\<rparr>])
   | (Inl e, tr') \<Rightarrow>
        (send_raw_transaction w = Inl e \<and> length (send_calls tr') = length (send_calls tr) + 1)
        \<or> send_calls tr' = send_calls tr"
  by (simp add: liquidate_trove_def Let_def send_calls_append
      split: sum.splits option.splits)

theorem liquidate_trove_witness:
  "liquidate_trove (scenario trove_B 1900 30 1001 (Inr 1)) ''0xB0b'' [] =
     (Inr 1001,
      [SendRaw \<lparr>troves = [''0xB0b''], chainId = 1, gas = 2000000, gasPrice = 30, nonce = 7\<rparr> (Inr 1001),
       Info (TransactionSent 1001)])
   \<and> send_calls (snd (liquidate_trove (scenario trove_B 1900 30 1001 (Inr 1)) ''0xB0b'' [])) =
       [\<lparr>troves = [''0xB0b''], chainId = 1, gas = 2000000, gasPrice = 30, nonce = 7\<rparr>]"
  using liquidate_trove_sends_once
    [where w = "scenario trove_B 1900 30 1001 (Inr 1)" and a = "''0xB0b''" and tr = "[]"]
  by (simp add: liquidate_trove_def scenario_def Let_def)

text \<open>
  C7 (as amended).  The health evaluation \<^verbatim>\<open>get_trove_details(address)\<close> is not a function of
  its argument alone: it reads the trove from the chain and, when the debt is positive,
  the price from the price API.  Its result is determined by the address and by what
  these two reads return: two evaluations that are given the same trove and the same price
  outcome return the same result.
\<close>

theorem health_evaluation_deterministic_in_reads:
  assumes "Troves w1 a = Troves w2 a" and "get_eth_price w1 = get_eth_price w2"
  shows "get_trove_details w1 a = get_trove_details w2 a"
  unfolding get_trove_details_def assms by (rule refl)

theorem health_evaluation_deterministic_witness:
  "Troves (scenario trove_B 1900 30 1001 (Inr 1)) ''0xB0b''
     = Troves (scenario trove_B 1900 45 1002 (Inl (Failure ''TimeExhausted''))) ''0xB0b''
   \<and> get_eth_price (scenario trove_B 1900 30 1001 (Inr 1))
     = get_eth_price (scenario trove_B 1900 45 1002 (Inl (Failure ''TimeExhausted'')))
   \<and> get_trove_details (scenario trove_B 1900 30 1001 (Inr 1)) ''0xB0b''
     = get_trove_details (scenario trove_B 1900 45 1002 (Inl (Failure ''TimeExhausted''))) ''0xB0b''"
proof -
  have t: "Troves (scenario trove_B 1900 30 1001 (Inr 1)) ''0xB0b''
     = Troves (scenario trove_B 1900 45 1002 (Inl (Failure ''TimeExhausted''))) ''0xB0b''"
    by (simp add: scenario_def)
  have p: "get_eth_price (scenario trove_B 1900 30 1001 (Inr 1))
     = get_eth_price (scenario trove_B 1900 45 1002 (Inl (Failure ''TimeExhausted'')))"
    by (simp add: scenario_def get_eth_price_def)
  show ?thesis
    using health_evaluation_deterministic_in_reads [OF t p] t p by simp
qed

text \<open>
  C7 as stated fails: evaluating the same address twice, first with the price API
  answering 1900 and then 2400, gives the ratio 0.95, below the threshold, and then 1.2,
  above it.
\<close>

theorem health_evaluation_reads_counterexample:
  "get_trove_details (scenario trove_B 1900 30 1001 (Inr 1)) ''0xB0b'' =
     Inr (Some \<lparr>address = ''0xB0b'', collateral = 3 / 2, debt = 3000,
                collateral_ratio = 4278419646001971 / 4503599627370496\<rparr>)
   \<and> get_trove_details (scenario trove_B 2400 30 1001 (Inr 1)) ''0xB0b'' =
     Inr (Some \<lparr>address = ''0xB0b'', collateral = 3 / 2, debt = 3000,
                collateral_ratio = 5404319552844595 / 4503599627370496\<rparr>)
   \<and> get_trove_details (scenario trove_B 1900 30 1001 (Inr 1)) ''0xB0b''
       \<noteq> get_trove_details (scenario trove_B 2400 30 1001 (Inr 1)) ''0xB0b''"
  by (simp add: get_trove_details_def scenario_eval float_eval)


lemma submissions_append: "submissions (xs @ ys) = submissions xs @ submissions ys"
  by (induction xs rule: submissions.induct) simp_all

lemma confirmed_append: "confirmed (xs @ ys) = confirmed xs @ confirmed ys"
  by (induction xs rule: confirmed.induct) simp_all

lemma main_loop_extends: "\<exists>evs. snd (main_loop ws tr) = tr @ evs"
proof (induction ws arbitrary: tr)
  case Nil
  show ?case by simp
next
  case (Cons w ws)
  obtain st tr1 where it: "main_iteration w tr = (st, tr1)" by (cases "main_iteration w tr")
  have tr1: "tr1 = tr @ snd (main_iteration w [])"
    using it main_iteration_extends [of w tr] by simp
  show ?case
  proof (cases st)
    case Running
    from Cons.IH [of tr1] obtain evs where "snd (main_loop ws tr1) = tr1 @ evs" by blast
    then show ?thesis using it Running tr1 by simp
  next
    case (Raised e)
    then show ?thesis using it tr1 by simp
  qed
qed

text \<open>The events of one iteration: at most one submission, for one address, and it is
  confirmed unless the wait for its receipt raised.\<close>

lemma iteration_submissions:
  "length (submissions (snd (main_iteration w []))) \<le> 1"
  by (simp add: main_iteration_def liquidate_trove_def handler_def Let_def
      submissions_append split: sum.splits option.splits prod.splits)

lemma iteration_settled:
  "settled (snd (main_iteration w []))
   \<or> (\<exists>h e. WaitReceipt h (Inl e) \<in> set (snd (main_iteration w [])))"
  by (auto simp: main_iteration_def liquidate_trove_def handler_def Let_def settled_def
      submissions_append confirmed_append split: sum.splits option.splits prod.splits)

lemma pending_settled: "settled tr \<Longrightarrow> pending tr a = []"
  by (auto simp: settled_def pending_def filter_empty_conv)

lemma pending_after_settled:
  assumes "settled tr"
  shows "length (pending (tr @ q) a) \<le> length (submissions q)"
proof -
  have old: "filter (\<lambda>h. h \<notin> set (confirmed tr) \<and> h \<notin> set (confirmed q))
               (map snd (filter (\<lambda>s. fst s = a) (submissions tr))) = []"
    using assms by (auto simp: settled_def filter_empty_conv)
  have "length (pending (tr @ q) a)
          = length (filter (\<lambda>h. h \<notin> set (confirmed tr) \<and> h \<notin> set (confirmed q))
               (map snd (filter (\<lambda>s. fst s = a) (submissions q))))"
    using old by (simp add: pending_def submissions_append confirmed_append)
  also have "\<dots> \<le> length (map snd (filter (\<lambda>s. fst s = a) (submissions q)))"
    by (rule length_filter_le)
  also have "\<dots> \<le> length (submissions q)" by simp
  finally show ?thesis .
qed

lemma settled_append: "settled tr \<Longrightarrow> settled q \<Longrightarrow> settled (tr @ q)"
  by (auto simp: settled_def submissions_append confirmed_append)

lemma take_submissions: "length (submissions (take n q)) \<le> length (submissions q)"
proof -
  have "submissions q = submissions (take n q) @ submissions (drop n q)"
    using submissions_append [of "take n q" "drop n q"] by simp
  then show ?thesis by simp
qed

lemma main_loop_pending:
  assumes "\<And>h e. WaitReceipt h (Inl e) \<notin> set (snd (main_loop ws tr))"
    and "settled tr"
    and "\<And>n. length (pending (take n tr) a) \<le> 1"
  shows "length (pending (take n (snd (main_loop ws tr))) a) \<le> 1"
  using assms
proof (induction ws arbitrary: tr n)
  case Nil
  then show ?case by simp
next
  case (Cons w ws)
  define evs where "evs = snd (main_iteration w [])"
  obtain st where it: "main_iteration w tr = (st, tr @ evs)"
    using main_iteration_extends [of w tr] by (simp add: evs_def)
  obtain more where more: "snd (main_loop (w # ws) tr) = (tr @ evs) @ more"
  proof (cases st)
    case Running
    from main_loop_extends [of ws "tr @ evs"] obtain m where
      "snd (main_loop ws (tr @ evs)) = (tr @ evs) @ m" by blast
    then show ?thesis using that it Running by simp
  next
    case (Raised e)
    then show ?thesis using that [of "[]"] it by simp
  qed
  have nowait: "\<And>h e. WaitReceipt h (Inl e) \<notin> set evs"
    using Cons.prems(1) more by auto
  have s1: "settled (tr @ evs)"
    using settled_append [OF Cons.prems(2)] iteration_settled [of w] nowait
    by (auto simp: evs_def)
  have step: "length (pending (take k (tr @ evs)) a) \<le> 1" for k
  proof (cases "k \<le> length tr")
    case True
    then show ?thesis using Cons.prems(3) [of k] by simp
  next
    case False
    then have "take k (tr @ evs) = tr @ take (k - length tr) evs" by simp
    moreover have "length (pending (tr @ take (k - length tr) evs) a)
                     \<le> length (submissions (take (k - length tr) evs))"
      by (rule pending_after_settled [OF Cons.prems(2)])
    moreover have "length (submissions (take (k - length tr) evs)) \<le> 1"
      using take_submissions [of "k - length tr" evs] iteration_submissions [of w]
      by (simp add: evs_def)
    ultimately show ?thesis by simp
  qed
  show ?case
  proof (cases st)
    case Running
    have eq: "main_loop (w # ws) tr = main_loop ws (tr @ evs)" using it Running by simp
    show ?thesis
      unfolding eq
    proof (rule Cons.IH)
      show "\<And>h e. WaitReceipt h (Inl e) \<notin> set (snd (main_loop ws (tr @ evs)))"
        using Cons.prems(1) eq by simp
      show "settled (tr @ evs)" by (rule s1)
      show "\<And>n. length (pending (take n (tr @ evs)) a) \<le> 1" by (rule step)
    qed
  next
    case (Raised e)
    then have "snd (main_loop (w # ws) tr) = tr @ evs" using it by simp
    then show ?thesis using step by simp
  qed
qed

text \<open>
  C3 (as amended).  The script keeps no set of position ids in flight.  An iteration
  submits at most one liquidation transaction and then waits for its receipt before the
  next poll, so as long as no wait for a receipt raises, every state the loop reaches (every
  prefix of the trace of a run) has at most one pending submission per position id.
\<close>

theorem at_most_one_pending_unless_wait_raises:
  assumes "\<And>h e. WaitReceipt h (Inl e) \<notin> set (snd (main ws))"
  shows "length (pending (take n (snd (main ws))) a) \<le> 1"
  unfolding main_def
proof (rule main_loop_pending)
  show "\<And>h e. WaitReceipt h (Inl e) \<notin> set (snd (main_loop ws [Info Starting]))"
    using assms by (simp add: main_def)
  show "settled [Info Starting]" by (simp add: settled_def)
  show "\<And>n. length (pending (take n [Info Starting]) a) \<le> 1"
    by (simp add: pending_def take_Cons split: nat.splits)
qed

lemmas run_eval =
  main_def main_iteration_def liquidate_trove_def handler_def get_trove_details_def
  scenario_eval float_eval

theorem at_most_one_pending_witness:
  "(\<forall>h e. WaitReceipt h (Inl e)
        \<notin> set (snd (main [scenario trove_B 1900 30 1001 (Inr 1), scenario trove_A 2000 30 1002 (Inr 1)])))
   \<and> pending (take 5 (snd (main [scenario trove_B 1900 30 1001 (Inr 1), scenario trove_A 2000 30 1002 (Inr 1)])))
        ''0xB0b'' = [1001]
   \<and> length (pending (take 5 (snd (main [scenario trove_B 1900 30 1001 (Inr 1), scenario trove_A 2000 30 1002 (Inr 1)])))
        ''0xB0b'') \<le> 1
   \<and> pending (snd (main [scenario trove_B 1900 30 1001 (Inr 1), scenario trove_A 2000 30 1002 (Inr 1)]))
        ''0xB0b'' = []"
proof -
  let ?ws = "[scenario trove_B 1900 30 1001 (Inr 1), scenario trove_A 2000 30 1002 (Inr 1)]"
  have run: "main ?ws =
    (Running,
     [Info Starting,
      Info (LowestCRTrove \<lparr>address = ''0xB0b'', collateral = 3 / 2, debt = 3000,
                            collateral_ratio = 4278419646001971 / 4503599627370496\<rparr>),
      Info (Attempting ''0xB0b''),
      SendRaw \<lparr>troves = [''0xB0b''], chainId = 1, gas = 2000000, gasPrice = 30, nonce = 7\<rparr> (Inr 1001),
      Info (TransactionSent 1001),
      WaitReceipt 1001 (Inr 1),
      Info (LiquidationComplete 1001),
      Sleep 15,
      Info (LowestCRTrove \<lparr>address = ''0xB0b'', collateral = 2, debt = 3000,
                            collateral_ratio = 6004799503160661 / 4503599627370496\<rparr>),
      Info AboveThreshold,
      Sleep 15])"
    by (simp add: run_eval)
  have h: "\<And>h e. WaitReceipt h (Inl e) \<notin> set (snd (main ?ws))"
    by (subst run) simp
  have p5: "pending (take 5 (snd (main ?ws))) ''0xB0b'' = [1001]"
    by (subst run) (simp add: pending_def)
  have pe: "pending (snd (main ?ws)) ''0xB0b'' = []"
    by (subst run) (simp add: pending_def)
  show ?thesis
    using at_most_one_pending_unless_wait_raises [of ?ws 5 "''0xB0b''", OF h] h p5 pe
    by blast
qed

text \<open>
  C3 as stated fails.  The wait for the receipt of the first submission runs out of time;
  five seconds later the position still heads the list with a ratio of 0.95, and the loop
  submits for it again while the first submission is unconfirmed: two submissions are
  pending for the same position id.
\<close>

theorem two_pending_counterexample:
  "pending (snd (main [scenario trove_B 1900 30 1001 (Inl (Failure ''TimeExhausted'')),
                      scenario trove_B 1900 45 1002 (Inl (Failure ''TimeExhausted''))]))
     ''0xB0b'' = [1001, 1002]
   \<and> \<not> length (pending (snd (main [scenario trove_B 1900 30 1001 (Inl (Failure ''TimeExhausted'')),
                      scenario trove_B 1900 45 1002 (Inl (Failure ''TimeExhausted''))]))
     ''0xB0b'') \<le> 1"
  by (simp add: run_eval pending_def)









section \<open>Properties of uniswap\_option\_risks.py\<close>







end
